theory Spec2Isabelle
  imports Main "HOL-Library.Word"
begin

section \<open>Data model of the smtp service\<close>

text \<open>
  A Go \<open>error\<close> value is modelled by its message; the \<open>nil\<close> error is \<open>None\<close> of
  \<open>go_error option\<close>. A \<open>[]byte\<close> is a list of 8-bit words.
\<close>

type_synonym go_error = string

type_synonym byte = "8 word"

text \<open>The command line flags \<open>smtp_host\<close> ... \<open>smtp_from\<close> with their defaults.\<close>

record config =
  smtpHost :: string
  smtpPort :: int
  smtpUser :: string
  smtpPassword :: string
  smtpFrom :: string

definition default_config :: config where
  "default_config =
     \<lparr>smtpHost = ''127.0.0.1'', smtpPort = 587, smtpUser = '''', smtpPassword = '''',
      smtpFrom = ''''\<rparr>"

record EmailAttachement =
  Filename :: string
  Mimetype :: string
  Embedded :: bool
  Content :: "byte list"

record Email =
  From :: string
  To :: string
  Subject :: string
  BodyPlain :: string
  BodyHTML :: string
  Attachements :: "EmailAttachement list"

subsection \<open>The message handed to the mail library\<close>

text \<open>
  \<open>mail.Message\<close> belongs to the library \<open>github.com/go-mail/mail\<close>, which is a
  dependency and not part of the repository. The model keeps the logical content of a
  message exactly as \<open>SendEmail\<close> passes it to the library: the header values per field,
  the body parts (content type and text), and the attached and the embedded files (name
  and bytes read from the reader). What the library derives from these values when it
  writes the message on the wire (header encoding, MIME structure, file headers) is
  outside the model.
\<close>

datatype mfile = File (file_name: string) (file_content: "byte list")

record message =
  header :: "string \<rightharpoonup> string list"
  parts :: "(string \<times> string) list"
  attachments :: "mfile list"
  embedded :: "mfile list"

definition NewMessage :: message where
  "NewMessage = \<lparr>header = Map.empty, parts = [], attachments = [], embedded = []\<rparr>"

definition SetHeader :: "string \<Rightarrow> string list \<Rightarrow> message \<Rightarrow> message" where
  "SetHeader field vals msg = msg\<lparr>header := (header msg)(field \<mapsto> vals)\<rparr>"

text \<open>
  Modelled from the spec: \<open>Message.SetBody\<close> is the library's; as the library documents
  it and as the specification says, it replaces any body set before.
\<close>

definition SetBody :: "string \<Rightarrow> string \<Rightarrow> message \<Rightarrow> message" where
  "SetBody contentType body msg = msg\<lparr>parts := [(contentType, body)]\<rparr>"

definition EmbedReader :: "string \<Rightarrow> byte list \<Rightarrow> message \<Rightarrow> message" where
  "EmbedReader name reader msg = msg\<lparr>embedded := embedded msg @ [File name reader]\<rparr>"

definition AttachReader :: "string \<Rightarrow> byte list \<Rightarrow> message \<Rightarrow> message" where
  "AttachReader name reader msg = msg\<lparr>attachments := attachments msg @ [File name reader]\<rparr>"

subsection \<open>Composition of the message in \<open>SendEmail\<close>\<close>

text \<open>The loop over \<open>m.Attachements\<close>: one library call per attachment, in order.\<close>

fun add_attachements :: "EmailAttachement list \<Rightarrow> message \<Rightarrow> message" where
  "add_attachements [] msg = msg"
| "add_attachements (attachement # rest) msg =
     add_attachements rest
       (if Embedded attachement
        then EmbedReader (Filename attachement) (Content attachement) msg
        else AttachReader (Filename attachement) (Content attachement) msg)"

text \<open>The two conditional \<open>SetBody\<close> calls, plain first.\<close>

definition set_bodies :: "Email \<Rightarrow> message \<Rightarrow> message" where
  "set_bodies m msg =
     (let msg = (if BodyPlain m \<noteq> '''' then SetBody ''text/plain'' (BodyPlain m) msg else msg);
          msg = (if BodyHTML m \<noteq> '''' then SetBody ''text/html'' (BodyHTML m) msg else msg)
      in msg)"

text \<open>Everything \<open>SendEmail\<close> does before it hands the message to the worker.\<close>

definition compose :: "config \<Rightarrow> Email \<Rightarrow> message" where
  "compose cfg m =
     (let msg = NewMessage;
          from = (if From m = '''' then smtpFrom cfg else From m);
          msg = SetHeader ''From'' [from] msg;
          msg = SetHeader ''To'' [To m] msg;
          msg = SetHeader ''Subject'' [Subject m] msg;
          msg = set_bodies m msg;
          msg = add_attachements (Attachements m) msg
      in msg)"

section \<open>The worker started by \<open>Start\<close>\<close>

text \<open>
  The transport (\<open>dialer.Dial\<close>, \<open>mail.Send\<close>, \<open>closer.Close\<close>) is the library's and
  talks to the network. Each iteration of the worker's loop is driven by one event, which
  says which case of the \<open>select\<close> fired and what the transport answers if the iteration
  calls it:
  \<^item> \<open>Recv m d s\<close>: a message \<open>m\<close> arrived on \<open>channelIn\<close>; \<open>dialer.Dial()\<close> would return
    \<open>d\<close> (an error, or a connection) and \<open>mail.Send\<close> would return \<open>s\<close>;
  \<^item> \<open>RecvClosed\<close>: \<open>channelIn\<close> is closed (\<open>ok\<close> is false);
  \<^item> \<open>TimerFired c\<close>: the timer of \<open>time.After(30 * time.Second)\<close> fired before a
    message arrived; \<open>closer.Close()\<close> would return \<open>c\<close>.
\<close>

datatype conn = Conn nat

datatype event =
    Recv message "go_error + conn" "go_error option"
  | RecvClosed
  | TimerFired "go_error option"

text \<open>
  The calls the worker makes on the transport, in order, each \<open>Dial\<close> with what it
  returned. The dialer is built once from the flags \<open>smtp_host\<close>, \<open>smtp_port\<close>,
  \<open>smtp_user\<close> and \<open>smtp_password\<close>, with a timeout of 35 seconds and
  \<open>RetryFailure\<close> set; these settings only parameterise the library's \<open>Dial\<close> and
  \<open>Send\<close>, whose answers the events carry. What the library does inside one of its
  calls is not part of the list.
\<close>

datatype transport_call =
    DialCall "go_error + conn"
  | SendCall conn message
  | CloseCall conn

datatype status = Running | Returned | Panicked

text \<open>
  The state of the service and of its worker: the field \<open>error\<close> of \<open>Service\<close>, the
  local variables \<open>closer\<close>, \<open>err\<close> and \<open>open\<close> of the goroutine, and what the worker has
  done so far: the messages taken from \<open>channelIn\<close>, the values sent on \<open>channelOut\<close>, the
  transport calls and the log lines.
\<close>

record worker =
  s_error :: "go_error option"
  closer :: "conn option"
  err :: "go_error option"
  is_open :: bool
  status :: status
  received :: "message list"
  chan_out :: "go_error option list"
  calls :: "transport_call list"
  log_lines :: "string list"

text \<open>\<open>NewService\<close> followed by \<open>Start\<close>: the goroutine is about to enter its loop.\<close>

definition init_worker :: worker where
  "init_worker =
     \<lparr>s_error = None, closer = None, err = None, is_open = False, status = Running,
      received = [], chan_out = [], calls = [],
      log_lines = [''SMTP-Service started, ready to send emails'']\<rparr>"

text \<open>
  \<open>mail.Send(closer, m)\<close> and what follows it. A \<open>nil\<close> closer cannot be used: the
  goroutine panics.
\<close>

definition send_step :: "message \<Rightarrow> go_error option \<Rightarrow> worker \<Rightarrow> worker" where
  "send_step m send_result w =
     (case closer w of
        None \<Rightarrow> w\<lparr>status := Panicked\<rparr>
      | Some c \<Rightarrow>
          (case send_result of
             Some e \<Rightarrow>
               w\<lparr>calls := calls w @ [SendCall c m, CloseCall c],
                 is_open := False,
                 chan_out := chan_out w @ [Some e]\<rparr>
           | None \<Rightarrow>
               w\<lparr>calls := calls w @ [SendCall c m],
                 chan_out := chan_out w @ [None]\<rparr>))"

text \<open>One iteration of the \<open>for { select { ... } }\<close> loop.\<close>

definition iteration :: "event \<Rightarrow> worker \<Rightarrow> worker" where
  "iteration ev w =
     (case ev of
        RecvClosed \<Rightarrow> w\<lparr>status := Returned\<rparr>
      | Recv m dial_result send_result \<Rightarrow>
          (let w = w\<lparr>received := received w @ [m]\<rparr> in
           if \<not> is_open w then
             (case dial_result of
                Inl e \<Rightarrow>
                  w\<lparr>closer := None, err := Some e,
                    calls := calls w @ [DialCall (Inl e)],
                    s_error := Some e\<rparr>
              | Inr c \<Rightarrow>
                  send_step m send_result
                    (w\<lparr>closer := Some c, err := None,
                       calls := calls w @ [DialCall (Inr c)],
                       is_open := True,
                       s_error := None\<rparr>))
           else send_step m send_result w)
      | TimerFired close_result \<Rightarrow>
          (if is_open w then
             (case closer w of
                None \<Rightarrow> w\<lparr>status := Panicked\<rparr>
              | Some c \<Rightarrow>
                  (case close_result of
                     Some e \<Rightarrow>
                       w\<lparr>calls := calls w @ [CloseCall c],
                         log_lines := log_lines w @ [''Can't close smtp connection: '' @ e],
                         is_open := False\<rparr>
                   | None \<Rightarrow>
                       w\<lparr>calls := calls w @ [CloseCall c], is_open := False\<rparr>))
           else w))"

text \<open>The loop runs while the goroutine has neither returned nor panicked.\<close>

definition step :: "event \<Rightarrow> worker \<Rightarrow> worker" where
  "step ev w = (if status w = Running then iteration ev w else w)"

fun run :: "event list \<Rightarrow> worker \<Rightarrow> worker" where
  "run [] w = w"
| "run (ev # evs) w = run evs (step ev w)"

definition Health :: "worker \<Rightarrow> go_error option" where
  "Health w = (case s_error w of Some e \<Rightarrow> Some e | None \<Rightarrow> None)"

text \<open>
  What the specification says \<open>Health\<close> returns, read off the transport calls made so
  far: the error of the most recent dial attempt, and no error when that attempt
  succeeded or when no dial was attempted.
\<close>

fun last_dial :: "transport_call list \<Rightarrow> (go_error + conn) option" where
  "last_dial [] = None"
| "last_dial (c # cs) =
     (case last_dial cs of
        Some r \<Rightarrow> Some r
      | None \<Rightarrow> (case c of DialCall r \<Rightarrow> Some r | SendCall x m \<Rightarrow> None | CloseCall x \<Rightarrow> None))"

definition health_spec :: "transport_call list \<Rightarrow> go_error option" where
  "health_spec cs =
     (case last_dial cs of
        None \<Rightarrow> None
      | Some (Inl e) \<Rightarrow> Some e
      | Some (Inr c) \<Rightarrow> None)"

text \<open>
  The connection a request is sent on: the one held when the worker is open, the one
  \<open>Dial\<close> returns otherwise (none when the dial fails).
\<close>

definition conn_for_send :: "go_error + conn \<Rightarrow> worker \<Rightarrow> conn option" where
  "conn_for_send dial_result w =
     (if is_open w then closer w
      else (case dial_result of Inl e \<Rightarrow> None | Inr c \<Rightarrow> Some c))"

section \<open>The caller's side of \<open>SendEmail\<close>\<close>

text \<open>
  \<open>SendEmail\<close> composes the message, sends it on \<open>channelIn\<close> and returns what it
  receives from \<open>channelOut\<close>. Both channels are unbuffered. The model is one caller and
  a worker waiting in its \<open>select\<close>: the worker takes the message and runs one
  iteration; the caller returns the value the worker sent on \<open>channelOut\<close> in that
  iteration. When the worker sent none, the caller stays blocked in
  \<open><-s.channelOut\<close>: nothing but the worker sends on that channel, and the worker
  sends only while it handles a message. When the goroutine has returned, \<open>channelIn\<close>
  is closed and the send on it panics.
\<close>

datatype outcome = Returns "go_error option" | Blocks | Panics

definition SendEmail ::
  "config \<Rightarrow> Email \<Rightarrow> go_error + conn \<Rightarrow> go_error option \<Rightarrow> worker \<Rightarrow> outcome \<times> worker" where
  "SendEmail cfg m dial_result send_result w =
     (let msg = compose cfg m in
      if status w \<noteq> Running then (Panics, w)
      else
        (let w' = iteration (Recv msg dial_result send_result) w in
         case drop (length (chan_out w)) (chan_out w') of
           [] \<Rightarrow> (Blocks, w')
         | r # rs \<Rightarrow> (Returns r, w')))"

section \<open>Example inputs\<close>

definition logo_png :: EmailAttachement where
  "logo_png = \<lparr>Filename = ''logo.png'', Mimetype = ''image/png'', Embedded = True,
     Content = [0x89, 0x50, 0x4E, 0x47]\<rparr>"

definition report_pdf :: EmailAttachement where
  "report_pdf = \<lparr>Filename = ''report.pdf'', Mimetype = ''application/pdf'', Embedded = False,
     Content = [0x25, 0x50, 0x44, 0x46]\<rparr>"

definition example_email :: Email where
  "example_email =
     \<lparr>From = '''', To = ''bob@example.org'', Subject = ''Report'',
      BodyPlain = ''see attachment'', BodyHTML = ''<p>see attachment</p>'',
      Attachements = [logo_png, report_pdf]\<rparr>"

definition signed_email :: Email where
  "signed_email = example_email\<lparr>From := ''alice@example.org''\<rparr>"

definition empty_email :: Email where
  "empty_email =
     \<lparr>From = '''', To = '''', Subject = '''', BodyPlain = '''', BodyHTML = '''',
      Attachements = []\<rparr>"

definition example_config :: config where
  "example_config = default_config\<lparr>smtpFrom := ''noreply@example.org''\<rparr>"

definition refused :: go_error where
  "refused = ''dial tcp 127.0.0.1:587: connect: connection refused''"

definition broken_pipe :: go_error where
  "broken_pipe = ''write tcp 127.0.0.1:587: write: broken pipe''"

text \<open>A worker holding an open connection: it has dialed and sent one message.\<close>

definition open_worker :: worker where
  "open_worker =
     run [Recv (compose example_config example_email) (Inr (Conn 1)) None] init_worker"

section \<open>Composition of the message\<close>

lemma header_add_attachements: "header (add_attachements as msg) = header msg"
  by (induction as arbitrary: msg) (simp_all add: EmbedReader_def AttachReader_def)

lemma parts_add_attachements: "parts (add_attachements as msg) = parts msg"
  by (induction as arbitrary: msg) (simp_all add: EmbedReader_def AttachReader_def)

lemma header_set_bodies: "header (set_bodies m msg) = header msg"
  by (simp add: set_bodies_def SetBody_def)

lemma attachments_set_bodies: "attachments (set_bodies m msg) = attachments msg"
  by (simp add: set_bodies_def SetBody_def)

lemma embedded_set_bodies: "embedded (set_bodies m msg) = embedded msg"
  by (simp add: set_bodies_def SetBody_def)

lemma attachments_add_attachements:
  "attachments (add_attachements as msg) =
     attachments msg @ map (\<lambda>a. File (Filename a) (Content a)) (filter (\<lambda>a. \<not> Embedded a) as)"
  by (induction as arbitrary: msg) (simp_all add: EmbedReader_def AttachReader_def)

lemma embedded_add_attachements:
  "embedded (add_attachements as msg) =
     embedded msg @ map (\<lambda>a. File (Filename a) (Content a)) (filter Embedded as)"
  by (induction as arbitrary: msg) (simp_all add: EmbedReader_def AttachReader_def)

text \<open>
  C7. When the \<open>From\<close> field of the email is empty, the \<open>From\<close> header of the composed
  message is the configured default sender \<open>smtp_from\<close>; when it is not empty, the header
  is that field, unchanged.
\<close>

theorem compose_From_header:
  "(From m = '''' \<longrightarrow> header (compose cfg m) ''From'' = Some [smtpFrom cfg]) \<and>
   (From m \<noteq> '''' \<longrightarrow> header (compose cfg m) ''From'' = Some [From m])"
  by (simp add: compose_def Let_def header_add_attachements header_set_bodies
      SetHeader_def NewMessage_def)

theorem compose_From_header_witness:
  "From example_email = '''' \<and>
   header (compose example_config example_email) ''From'' = Some [''noreply@example.org''] \<and>
   From signed_email \<noteq> '''' \<and>
   header (compose example_config signed_email) ''From'' = Some [''alice@example.org'']"
  using compose_From_header [of example_email example_config]
    compose_From_header [of signed_email example_config]
  by (simp add: example_email_def signed_email_def example_config_def)

text \<open>
  C8. Every attachment of the email is in the composed message, in the order of the
  list, with its file name and its content as given: those whose \<open>Embedded\<close> flag is set
  among the embedded files, all others among the regular attachments.
\<close>

theorem compose_attachements:
  "attachments (compose cfg m) =
     map (\<lambda>a. File (Filename a) (Content a)) (filter (\<lambda>a. \<not> Embedded a) (Attachements m)) \<and>
   embedded (compose cfg m) =
     map (\<lambda>a. File (Filename a) (Content a)) (filter Embedded (Attachements m))"
  by (simp add: compose_def Let_def attachments_add_attachements embedded_add_attachements
      attachments_set_bodies embedded_set_bodies SetHeader_def NewMessage_def)

text \<open>
  C9. When both \<open>BodyPlain\<close> and \<open>BodyHTML\<close> are non-empty, \<open>SendEmail\<close> calls
  \<open>SetBody\<close> with the plain body first and with the HTML body second, and the body of
  the composed message is the HTML body alone.
\<close>

theorem compose_both_bodies:
  assumes "BodyPlain m \<noteq> ''''" and "BodyHTML m \<noteq> ''''"
  shows "set_bodies m msg =
           SetBody ''text/html'' (BodyHTML m) (SetBody ''text/plain'' (BodyPlain m) msg) \<and>
         parts (compose cfg m) = [(''text/html'', BodyHTML m)]"
  using assms
  by (simp add: compose_def Let_def parts_add_attachements set_bodies_def SetBody_def)

theorem compose_both_bodies_witness:
  "BodyPlain example_email \<noteq> '''' \<and> BodyHTML example_email \<noteq> '''' \<and>
   set_bodies example_email NewMessage =
     SetBody ''text/html'' ''<p>see attachment</p>''
       (SetBody ''text/plain'' ''see attachment'' NewMessage) \<and>
   parts (compose example_config example_email) = [(''text/html'', ''<p>see attachment</p>'')]"
proof -
  have p: "BodyPlain example_email \<noteq> ''''" by (simp add: example_email_def)
  have h: "BodyHTML example_email \<noteq> ''''" by (simp add: example_email_def)
  show ?thesis
    using p h compose_both_bodies [OF p h, of NewMessage example_config]
    by (simp add: example_email_def)
qed

section \<open>The worker: health\<close>

lemma last_dial_append:
  "last_dial (xs @ ys) = (case last_dial ys of Some r \<Rightarrow> Some r | None \<Rightarrow> last_dial xs)"
  by (induction xs) (simp_all split: option.splits)

lemma health_spec_snoc_Dial:
  "health_spec (cs @ [DialCall d]) = (case d of Inl e \<Rightarrow> Some e | Inr c \<Rightarrow> None)"
  by (simp add: health_spec_def last_dial_append)

lemma health_spec_snoc_Send: "health_spec (cs @ [SendCall c m]) = health_spec cs"
  by (simp add: health_spec_def last_dial_append)

lemma health_spec_snoc_Close: "health_spec (cs @ [CloseCall c]) = health_spec cs"
  by (simp add: health_spec_def last_dial_append)

lemma health_spec_snoc_Send_Close:
  "health_spec (cs @ [SendCall c m, CloseCall c']) = health_spec cs"
  by (simp add: health_spec_def last_dial_append)

lemma Health_s_error: "Health w = s_error w"
  by (simp add: Health_def split: option.splits)

lemma send_step_health:
  "Health w = health_spec (calls w) \<Longrightarrow>
   Health (send_step m s w) = health_spec (calls (send_step m s w))"
  by (simp add: send_step_def Health_s_error health_spec_snoc_Send
      health_spec_snoc_Send_Close split: option.splits)

lemma iteration_health:
  assumes "Health w = health_spec (calls w)"
  shows "Health (iteration ev w) = health_spec (calls (iteration ev w))"
proof (cases ev)
  case (Recv m d s)
  show ?thesis
  proof (cases "is_open w")
    case True
    with Recv assms send_step_health [of "w\<lparr>received := received w @ [m]\<rparr>" m s]
    show ?thesis by (simp add: iteration_def Health_s_error)
  next
    case False
    show ?thesis
    proof (cases d)
      case (Inl e)
      with Recv False show ?thesis
        by (simp add: iteration_def Health_s_error health_spec_snoc_Dial)
    next
      case (Inr c)
      have "Health (send_step m s (w\<lparr>received := received w @ [m], closer := Some c, err := None,
                       calls := calls w @ [DialCall (Inr c)], is_open := True, s_error := None\<rparr>))
          = health_spec (calls (send_step m s (w\<lparr>received := received w @ [m], closer := Some c, err := None,
                       calls := calls w @ [DialCall (Inr c)], is_open := True, s_error := None\<rparr>)))"
        by (rule send_step_health) (simp add: Health_s_error health_spec_snoc_Dial)
      with Recv False Inr show ?thesis
        by (simp add: iteration_def)
    qed
  qed
next
  case RecvClosed
  with assms show ?thesis by (simp add: iteration_def Health_s_error)
next
  case (TimerFired c)
  with assms show ?thesis
    by (simp add: iteration_def Health_s_error health_spec_snoc_Close split: option.splits)
qed

lemma step_health:
  "Health w = health_spec (calls w) \<Longrightarrow>
   Health (step ev w) = health_spec (calls (step ev w))"
  by (simp add: step_def iteration_health)

lemma run_health:
  "Health w = health_spec (calls w) \<Longrightarrow>
   Health (run evs w) = health_spec (calls (run evs w))"
  by (induction evs arbitrary: w) (simp_all add: step_health)

lemma step_Timer_closed: "\<not> is_open w \<Longrightarrow> step (TimerFired c) w = w"
  by (simp add: step_def iteration_def)

lemma run_Timers_closed: "\<not> is_open w \<Longrightarrow> run (map TimerFired cs) w = w"
  by (induction cs) (simp_all add: step_Timer_closed)

lemma step_Timer_s_error: "s_error (step (TimerFired c) w) = s_error w"
  by (simp add: step_def iteration_def split: option.splits)

lemma run_Timers_s_error: "s_error (run (map TimerFired cs) w) = s_error w"
  by (induction cs arbitrary: w) (simp_all add: step_Timer_s_error)

lemma send_step_s_error: "s_error (send_step m s w) = s_error w"
  by (simp add: send_step_def split: option.splits)

text \<open>
  C3. After any events, \<open>Health\<close> returns the error of the most recent dial attempt:
  no error when no dial was attempted or when that attempt succeeded, the dial error
  when it failed. In particular a successful dial sets it to no error and a failed dial
  to the dial error; and a send failure on an open connection leaves it as it was, also
  through the idle timeouts that follow, until the next request dials again.
\<close>

theorem Health_reflects_last_dial:
  "Health (run evs init_worker) = health_spec (calls (run evs init_worker)) \<and>
   (status w = Running \<and> \<not> is_open w \<longrightarrow>
      Health (step (Recv m (Inr c) s) w) = None \<and>
      Health (step (Recv m (Inl e) s) w) = Some e) \<and>
   (status w' = Running \<and> is_open w' \<longrightarrow>
      Health (run (map TimerFired cs) (step (Recv m d (Some e)) w')) = Health w')"
proof (intro conjI impI)
  show "Health (run evs init_worker) = health_spec (calls (run evs init_worker))"
    by (rule run_health) (simp add: init_worker_def Health_def health_spec_def)
next
  assume "status w = Running \<and> \<not> is_open w"
  then show "Health (step (Recv m (Inr c) s) w) = None"
    by (simp add: step_def iteration_def Health_s_error send_step_s_error)
next
  assume "status w = Running \<and> \<not> is_open w"
  then show "Health (step (Recv m (Inl e) s) w) = Some e"
    by (simp add: step_def iteration_def Health_s_error)
next
  assume "status w' = Running \<and> is_open w'"
  then show "Health (run (map TimerFired cs) (step (Recv m d (Some e)) w')) = Health w'"
    by (simp add: Health_s_error run_Timers_s_error step_def iteration_def send_step_s_error)
qed

lemma open_worker_simps:
  "status open_worker = Running" "is_open open_worker" "closer open_worker = Some (Conn 1)"
  "s_error open_worker = None" "chan_out open_worker = [None]"
  by (simp_all add: open_worker_def init_worker_def step_def iteration_def send_step_def)

lemma init_worker_simps:
  "status init_worker = Running" "\<not> is_open init_worker" "closer init_worker = None"
  "s_error init_worker = None" "chan_out init_worker = []" "calls init_worker = []"
  "received init_worker = []"
  by (simp_all add: init_worker_def)

theorem Health_reflects_last_dial_witness:
  "status init_worker = Running \<and> \<not> is_open init_worker \<and>
   Health (run [Recv NewMessage (Inl refused) None, TimerFired None] init_worker) = Some refused \<and>
   Health (step (Recv NewMessage (Inr (Conn 1)) (Some broken_pipe)) init_worker) = None \<and>
   Health (step (Recv NewMessage (Inl refused) (Some broken_pipe)) init_worker) = Some refused \<and>
   status open_worker = Running \<and> is_open open_worker \<and>
   Health (run (map TimerFired [None, Some broken_pipe])
     (step (Recv NewMessage (Inl refused) (Some refused)) open_worker)) = None"
  using Health_reflects_last_dial [where evs = "[Recv NewMessage (Inl refused) None, TimerFired None]"
      and w = init_worker and m = NewMessage and c = "Conn 1" and s = "Some broken_pipe"
      and e = refused and w' = open_worker and cs = "[None, Some broken_pipe]"
      and d = "Inl refused"]
  by (simp add: open_worker_simps init_worker_simps Health_s_error health_spec_def
      step_def iteration_def)

section \<open>The worker: requests and idle timeouts\<close>

lemma step_Recv_connected:
  assumes "status w = Running" and "conn_for_send d w = Some c"
  shows "step (Recv m d s) w =
    (let w1 = w\<lparr>received := received w @ [m]\<rparr>;
         w2 = (if is_open w then w1
               else w1\<lparr>closer := Some c, err := None, calls := calls w @ [DialCall d],
                      is_open := True, s_error := None\<rparr>)
     in case s of
          Some e \<Rightarrow> w2\<lparr>calls := calls w2 @ [SendCall c m, CloseCall c], is_open := False,
                       chan_out := chan_out w @ [Some e]\<rparr>
        | None \<Rightarrow> w2\<lparr>calls := calls w2 @ [SendCall c m], chan_out := chan_out w @ [None]\<rparr>)"
  using assms
  by (auto simp add: step_def iteration_def send_step_def conn_for_send_def Let_def
      split: sum.splits option.splits)

lemma step_Recv_dial_failure:
  assumes "status w = Running" and "\<not> is_open w"
  shows "step (Recv m (Inl e) s) w =
    w\<lparr>received := received w @ [m], closer := None, err := Some e,
      calls := calls w @ [DialCall (Inl e)], s_error := Some e\<rparr>"
  using assms by (simp add: step_def iteration_def)

lemma Recv_one_response:
  assumes "status w = Running" and "conn_for_send d w = Some c"
  shows "chan_out (step (Recv m d s) w) = chan_out w @ [s]"
  using assms by (simp add: step_Recv_connected Let_def split: option.splits)

lemma Recv_dial_failure_no_response:
  assumes "status w = Running" and "\<not> is_open w"
  shows "chan_out (step (Recv m (Inl e) s) w) = chan_out w"
  using assms by (simp add: step_Recv_dial_failure)

text \<open>
  C4. A request is handled on a connection (the open one, or one dialed for it) and the
  send fails: the worker closes that connection right after the send, is closed
  afterwards, and sends the send error on the response channel. The next request it
  handles, after any number of idle timeouts, starts with a dial, and sends only on the
  connection that dial returned.
\<close>

theorem send_failure_closes_and_redials:
  assumes "status w = Running" and "conn_for_send d w = Some c"
  shows "\<not> is_open (step (Recv m d (Some e)) w) \<and>
         status (step (Recv m d (Some e)) w) = Running \<and>
         chan_out (step (Recv m d (Some e)) w) = chan_out w @ [Some e] \<and>
         calls (step (Recv m d (Some e)) w) =
           calls w @ (if is_open w then [] else [DialCall d]) @ [SendCall c m, CloseCall c] \<and>
         calls (step (Recv m2 d2 s2) (run (map TimerFired cs) (step (Recv m d (Some e)) w))) =
           calls (step (Recv m d (Some e)) w) @
             DialCall d2 #
               (case d2 of
                  Inl e2 \<Rightarrow> []
                | Inr c2 \<Rightarrow> SendCall c2 m2 # (case s2 of None \<Rightarrow> [] | Some e2 \<Rightarrow> [CloseCall c2]))"
proof -
  let ?w' = "step (Recv m d (Some e)) w"
  have closed: "\<not> is_open ?w'" and running: "status ?w' = Running"
    using assms by (simp_all add: step_Recv_connected Let_def)
  have out: "chan_out ?w' = chan_out w @ [Some e]"
    using assms by (rule Recv_one_response)
  have cs: "calls ?w' =
      calls w @ (if is_open w then [] else [DialCall d]) @ [SendCall c m, CloseCall c]"
    using assms by (simp add: step_Recv_connected Let_def)
  have idle: "run (map TimerFired cs) ?w' = ?w'"
    using closed by (rule run_Timers_closed)
  have nxt: "calls (step (Recv m2 d2 s2) ?w') =
      calls ?w' @ DialCall d2 #
        (case d2 of
           Inl e2 \<Rightarrow> []
         | Inr c2 \<Rightarrow> SendCall c2 m2 # (case s2 of None \<Rightarrow> [] | Some e2 \<Rightarrow> [CloseCall c2]))"
  proof (cases d2)
    case (Inl e2)
    then show ?thesis using closed running by (simp add: step_Recv_dial_failure)
  next
    case (Inr c2)
    then have "conn_for_send d2 ?w' = Some c2"
      using closed by (simp add: conn_for_send_def)
    with running closed Inr show ?thesis
      by (simp add: step_Recv_connected [where c = c2] Let_def split: option.splits)
  qed
  show ?thesis using closed running out cs nxt by (simp only: idle simp_thms)
qed

theorem send_failure_closes_and_redials_witness:
  "status open_worker = Running \<and> conn_for_send (Inl refused) open_worker = Some (Conn 1) \<and>
   \<not> is_open (step (Recv NewMessage (Inl refused) (Some broken_pipe)) open_worker) \<and>
   chan_out (step (Recv NewMessage (Inl refused) (Some broken_pipe)) open_worker) =
     [None, Some broken_pipe] \<and>
   calls (step (Recv NewMessage (Inl refused) (Some broken_pipe)) open_worker) =
     calls open_worker @ [SendCall (Conn 1) NewMessage, CloseCall (Conn 1)] \<and>
   calls (step (Recv NewMessage (Inr (Conn 2)) None)
       (run (map TimerFired [None])
          (step (Recv NewMessage (Inl refused) (Some broken_pipe)) open_worker))) =
     calls open_worker @ [SendCall (Conn 1) NewMessage, CloseCall (Conn 1),
       DialCall (Inr (Conn 2)), SendCall (Conn 2) NewMessage]"
proof -
  have r: "status open_worker = Running" by (simp add: open_worker_simps)
  have c: "conn_for_send (Inl refused) open_worker = Some (Conn 1)"
    by (simp add: conn_for_send_def open_worker_simps)
  show ?thesis
    using r c send_failure_closes_and_redials [OF r c, where m = NewMessage
        and e = broken_pipe and ?m2.0 = NewMessage and ?d2.0 = "Inr (Conn 2)"
        and ?s2.0 = None and cs = "[None]"]
    by (simp add: open_worker_simps)
qed

lemma step_Recv_open_success:
  assumes "status w = Running" and "is_open w" and "closer w = Some c"
  shows "step (Recv m d None) w =
    w\<lparr>received := received w @ [m], calls := calls w @ [SendCall c m],
      chan_out := chan_out w @ [None]\<rparr>"
  using assms by (simp add: step_def iteration_def send_step_def)

text \<open>
  C5. Starting with an open connection, a sequence of requests whose sends all succeed,
  one after the other with no failure and no idle timeout between them: the worker is
  still open afterwards and holds the same connection, it has made one send call per
  request on that connection and no dial, and it has sent \<open>nil\<close> on the response
  channel once per request.
\<close>

theorem successful_sends_reuse_connection:
  assumes "status w = Running" and "is_open w" and "closer w = Some c"
  shows "is_open (run (map (\<lambda>(m, d). Recv m d None) reqs) w) \<and>
         status (run (map (\<lambda>(m, d). Recv m d None) reqs) w) = Running \<and>
         closer (run (map (\<lambda>(m, d). Recv m d None) reqs) w) = Some c \<and>
         chan_out (run (map (\<lambda>(m, d). Recv m d None) reqs) w) =
           chan_out w @ replicate (length reqs) None \<and>
         calls (run (map (\<lambda>(m, d). Recv m d None) reqs) w) =
           calls w @ map (\<lambda>(m, d). SendCall c m) reqs"
  using assms
proof (induction reqs arbitrary: w)
  case Nil
  then show ?case by simp
next
  case (Cons r reqs)
  obtain m d where r: "r = (m, d)" by (cases r)
  let ?w1 = "step (Recv m d None) w"
  have w1: "?w1 = w\<lparr>received := received w @ [m], calls := calls w @ [SendCall c m],
      chan_out := chan_out w @ [None]\<rparr>"
    using Cons.prems by (rule step_Recv_open_success)
  have "status ?w1 = Running" and "is_open ?w1" and "closer ?w1 = Some c"
    using Cons.prems by (simp_all add: w1)
  from Cons.IH [OF this] show ?case
    by (simp add: r w1 replicate_app_Cons_same)
qed

theorem successful_sends_reuse_connection_witness:
  "status open_worker = Running \<and> is_open open_worker \<and> closer open_worker = Some (Conn 1) \<and>
   is_open (run [Recv NewMessage (Inl refused) None, Recv NewMessage (Inr (Conn 2)) None]
     open_worker) \<and>
   chan_out (run [Recv NewMessage (Inl refused) None, Recv NewMessage (Inr (Conn 2)) None]
     open_worker) = [None, None, None] \<and>
   calls (run [Recv NewMessage (Inl refused) None, Recv NewMessage (Inr (Conn 2)) None]
     open_worker) =
     calls open_worker @ [SendCall (Conn 1) NewMessage, SendCall (Conn 1) NewMessage]"
proof -
  have r: "status open_worker = Running" and "is_open open_worker"
    and "closer open_worker = Some (Conn 1)"
    by (simp_all add: open_worker_simps)
  from successful_sends_reuse_connection [OF this,
      of "[(NewMessage, Inl refused), (NewMessage, Inr (Conn 2))]"]
  show ?thesis by (simp add: open_worker_simps)
qed

text \<open>
  C6. The idle timer (30 seconds, armed anew in each iteration) fires while the
  connection is open: the worker closes the connection and is closed afterwards. It
  sends nothing on the response channel and leaves the health error as it was. An error
  of the close call adds a line to the log and changes nothing else: apart from the log,
  the worker's state is the one a close without error leaves.
\<close>

theorem idle_timeout_closes_silently:
  assumes "status w = Running" and "is_open w" and "closer w = Some c"
  shows "\<not> is_open (step (TimerFired close_result) w) \<and>
         status (step (TimerFired close_result) w) = Running \<and>
         calls (step (TimerFired close_result) w) = calls w @ [CloseCall c] \<and>
         chan_out (step (TimerFired close_result) w) = chan_out w \<and>
         s_error (step (TimerFired close_result) w) = s_error w \<and>
         Health (step (TimerFired close_result) w) = Health w \<and>
         log_lines (step (TimerFired close_result) w) =
           log_lines w @
             (case close_result of
                None \<Rightarrow> []
              | Some e \<Rightarrow> [''Can't close smtp connection: '' @ e]) \<and>
         (step (TimerFired close_result) w)\<lparr>log_lines := l\<rparr> =
           (step (TimerFired None) w)\<lparr>log_lines := l\<rparr>"
  using assms
  by (simp add: step_def iteration_def Health_s_error split: option.splits)

theorem idle_timeout_closes_silently_witness:
  "status open_worker = Running \<and> is_open open_worker \<and> closer open_worker = Some (Conn 1) \<and>
   \<not> is_open (step (TimerFired (Some broken_pipe)) open_worker) \<and>
   calls (step (TimerFired (Some broken_pipe)) open_worker) =
     calls open_worker @ [CloseCall (Conn 1)] \<and>
   chan_out (step (TimerFired (Some broken_pipe)) open_worker) = [None] \<and>
   Health (step (TimerFired (Some broken_pipe)) open_worker) = None \<and>
   log_lines (step (TimerFired (Some broken_pipe)) open_worker) =
     log_lines open_worker @ [''Can't close smtp connection: '' @ broken_pipe]"
proof -
  have r: "status open_worker = Running" and "is_open open_worker"
    and "closer open_worker = Some (Conn 1)"
    by (simp_all add: open_worker_simps)
  from idle_timeout_closes_silently [OF this, of "Some broken_pipe"]
  show ?thesis by (simp add: open_worker_simps Health_s_error)
qed

section \<open>Reachable states\<close>

lemma step_keeps_closer:
  assumes "is_open w \<longrightarrow> closer w \<noteq> None" and "status w \<noteq> Panicked"
  shows "(is_open (step ev w) \<longrightarrow> closer (step ev w) \<noteq> None) \<and> status (step ev w) \<noteq> Panicked"
  using assms
  by (cases ev)
    (auto simp add: step_def iteration_def send_step_def Let_def split: sum.splits option.splits)

lemma run_keeps_closer:
  assumes "is_open w \<longrightarrow> closer w \<noteq> None" and "status w \<noteq> Panicked"
  shows "(is_open (run evs w) \<longrightarrow> closer (run evs w) \<noteq> None) \<and> status (run evs w) \<noteq> Panicked"
  using assms
proof (induction evs arbitrary: w)
  case Nil
  then show ?case by simp
next
  case (Cons ev evs)
  from step_keeps_closer [OF Cons.prems, of ev] Cons.IH [of "step ev w"]
  show ?case by simp
qed

lemma worker_never_panics:
  "status (run evs init_worker) \<noteq> Panicked \<and>
   (is_open (run evs init_worker) \<longrightarrow> closer (run evs init_worker) \<noteq> None)"
  using run_keeps_closer [of init_worker evs] by (simp add: init_worker_simps)

section \<open>The caller\<close>

lemma received_send_step: "received (send_step m s w) = received w"
  by (simp add: send_step_def split: option.splits)

lemma received_step_Recv:
  "status w = Running \<Longrightarrow> received (step (Recv msg d s) w) = received w @ [msg]"
  by (simp add: step_def iteration_def Let_def received_send_step split: sum.splits)

lemma chan_out_step_Recv:
  "chan_out (step (Recv msg d s) w) = chan_out w \<or>
   chan_out (step (Recv msg d s) w) = chan_out w @ [s]"
  by (simp add: step_def iteration_def send_step_def Let_def split: sum.splits option.splits)

lemma SendEmail_Running:
  assumes "status w = Running"
  shows "SendEmail cfg m d s w =
    (if chan_out (step (Recv (compose cfg m) d s) w) = chan_out w then Blocks else Returns s,
     step (Recv (compose cfg m) d s) w)"
  using assms chan_out_step_Recv [of "compose cfg m" d s w]
  by (auto simp add: SendEmail_def Let_def step_def)


text \<open>
  C10. \<open>SendEmail\<close> validates nothing. For every email (also one with no body, no
  recipient and no sender) called on a running worker, the composed message is handed to
  the worker, which runs one iteration on it. Whether the call returns, and what it
  returns, does not depend on the email: any other email gives the same outcome under
  the same answers of the transport. Every value the call returns, error or \<open>nil\<close>, is
  the value the worker sent on the response channel for this message.
\<close>

theorem SendEmail_no_validation:
  assumes "status w = Running"
  shows "snd (SendEmail cfg m d s w) = step (Recv (compose cfg m) d s) w \<and>
         received (snd (SendEmail cfg m d s w)) = received w @ [compose cfg m] \<and>
         fst (SendEmail cfg m d s w) = fst (SendEmail cfg m' d s w) \<and>
         fst (SendEmail cfg m d s w) \<noteq> Panics \<and>
         (\<forall>r. fst (SendEmail cfg m d s w) = Returns r \<longrightarrow>
            r = s \<and> chan_out (snd (SendEmail cfg m d s w)) = chan_out w @ [r])"
proof -
  have same: "chan_out (step (Recv (compose cfg m) d s) w) =
      chan_out (step (Recv (compose cfg m') d s) w)"
    by (simp add: step_def iteration_def send_step_def Let_def
        split: sum.splits option.splits)
  show ?thesis
    using assms chan_out_step_Recv [of "compose cfg m" d s w] same
    by (auto simp add: SendEmail_Running received_step_Recv)
qed

theorem SendEmail_no_validation_witness:
  "status open_worker = Running \<and>
   fst (SendEmail default_config empty_email (Inl refused) (Some broken_pipe) open_worker) =
     Returns (Some broken_pipe) \<and>
   received (snd (SendEmail default_config empty_email (Inl refused) (Some broken_pipe)
     open_worker)) = received open_worker @ [compose default_config empty_email] \<and>
   chan_out (snd (SendEmail default_config empty_email (Inl refused) (Some broken_pipe)
     open_worker)) = chan_out open_worker @ [Some broken_pipe]"
proof -
  have r: "status open_worker = Running" by (simp add: open_worker_simps)
  have f: "fst (SendEmail default_config empty_email (Inl refused) (Some broken_pipe)
      open_worker) = Returns (Some broken_pipe)"
    by (simp add: SendEmail_def Let_def iteration_def send_step_def open_worker_simps)
  from SendEmail_no_validation [OF r, of default_config empty_email "Inl refused"
      "Some broken_pipe"] r f
  show ?thesis by blast
qed

text \<open>
  C1. The first call of \<open>SendEmail\<close>, on a closed worker, with a dial that fails. The
  worker records the dial error as the health error and stays closed, as the
  specification says. It sends nothing on the response channel: the iteration ends at
  \<open>continue\<close> without the send on \<open>channelOut\<close> that the send-failure branch has. The call
  does not return the dial error; it stays blocked.
\<close>

theorem SendEmail_dial_failure_blocks:
  "fst (SendEmail default_config example_email (Inl refused) None init_worker) = Blocks \<and>
   chan_out (snd (SendEmail default_config example_email (Inl refused) None init_worker)) = [] \<and>
   Health (snd (SendEmail default_config example_email (Inl refused) None init_worker)) =
     Some refused \<and>
   \<not> is_open (snd (SendEmail default_config example_email (Inl refused) None init_worker)) \<and>
   status (snd (SendEmail default_config example_email (Inl refused) None init_worker)) = Running"
  by (simp add: SendEmail_def Let_def iteration_def init_worker_simps Health_s_error)

text \<open>
  C2. A message whose dial fails gets no value on the response channel: after one such
  message the worker has received one message and sent no response; after a second
  message, dialed and sent with success, it has received two messages and sent one
  response.
\<close>

theorem dial_failure_sends_no_response:
  "length (received (run [Recv (compose default_config example_email) (Inl refused) None]
     init_worker)) = 1 \<and>
   chan_out (run [Recv (compose default_config example_email) (Inl refused) None]
     init_worker) = [] \<and>
   length (received (run [Recv (compose default_config example_email) (Inl refused) None,
     Recv (compose default_config signed_email) (Inr (Conn 1)) None] init_worker)) = 2 \<and>
   chan_out (run [Recv (compose default_config example_email) (Inl refused) None,
     Recv (compose default_config signed_email) (Inr (Conn 1)) None] init_worker) = [None]"
  by (simp add: step_def iteration_def send_step_def init_worker_simps)

end
